theory Spec2Isabelle
  imports Main
begin

section \<open>Python strings\<close>

text \<open>
  A Python \<open>str\<close> is modelled as a \<open>string\<close> (a list of 8-bit characters), read as
  ASCII. The string methods the program calls are \<open>strip\<close>, \<open>lower\<close>, \<open>split\<close>, the
  \<open>in\<close> test and \<open>int\<close>. Code points beyond ASCII (further whitespace, further digits,
  further upper-case letters) are outside the model.
\<close>

definition is_space :: "char \<Rightarrow> bool" where
  \<comment> \<open>\<open>str.isspace\<close> on ASCII: TAB, LF, VT, FF, CR, FS, GS, RS, US and the blank.\<close>
  "is_space c = (let n = (of_char c :: nat) in (9 \<le> n \<and> n \<le> 13) \<or> (28 \<le> n \<and> n \<le> 32))"

definition strip :: "string \<Rightarrow> string" where
  \<comment> \<open>\<open>s.strip()\<close>: leading and trailing whitespace removed.\<close>
  "strip s = rev (dropWhile is_space (rev (dropWhile is_space s)))"

definition lower_char :: "char \<Rightarrow> char" where
  "lower_char c =
     (let n = (of_char c :: nat) in if 65 \<le> n \<and> n \<le> 90 then char_of (n + 32) else c)"

definition lower :: "string \<Rightarrow> string" where
  \<comment> \<open>\<open>s.lower()\<close>\<close>
  "lower s = map lower_char s"

fun split :: "char \<Rightarrow> string \<Rightarrow> string list" where
  \<comment> \<open>\<open>s.split(sep)\<close> for a one-character separator: never the empty list.\<close>
  "split sep [] = [[]]"
| "split sep (c # cs) =
     (if c = sep then [] # split sep cs
      else (case split sep cs of w # ws \<Rightarrow> (c # w) # ws | [] \<Rightarrow> [[c]]))"

definition is_digit :: "char \<Rightarrow> bool" where
  "is_digit c = (let n = (of_char c :: nat) in 48 \<le> n \<and> n \<le> 57)"

definition digit_val :: "char \<Rightarrow> nat" where
  "digit_val c = of_char c - 48"

fun underscores_ok :: "string \<Rightarrow> bool" where
  \<comment> \<open>In an integer literal an underscore stands between two digits only.\<close>
  "underscores_ok [] = True"
| "underscores_ok [c] = is_digit c"
| "underscores_ok (c # d # cs) =
     (if c = CHR ''_'' then False
      else if d = CHR ''_'' then is_digit c \<and> (case cs of [] \<Rightarrow> False | e # _ \<Rightarrow> is_digit e \<and> underscores_ok cs)
      else is_digit c \<and> underscores_ok (d # cs))"

definition digits_value :: "string \<Rightarrow> nat option" where
  \<comment> \<open>The value of a non-empty run of decimal digits, single underscores allowed between digits.\<close>
  "digits_value s =
     (if s \<noteq> [] \<and> underscores_ok s
      then Some (foldl (\<lambda>a c. 10 * a + digit_val c) 0 (filter (\<lambda>c. c \<noteq> CHR ''_'') s))
      else None)"

definition py_int :: "string \<Rightarrow> int option" where
  \<comment> \<open>\<open>int(s)\<close> in base 10: surrounding whitespace, an optional sign, digits.
      \<open>None\<close> is the \<open>ValueError\<close>. CPython's configurable limit on the number of digits
      (4300 by default from 3.11 on) is not modelled.\<close>
  "py_int s =
     (case strip s of
        [] \<Rightarrow> None
      | c # cs \<Rightarrow>
          if c = CHR ''+'' then map_option int (digits_value cs)
          else if c = CHR ''-'' then map_option (\<lambda>n. - int n) (digits_value cs)
          else map_option int (digits_value (c # cs)))"


section \<open>Data model\<close>

text \<open>
  The exceptions the program can meet. \<open>SystemExit\<close> and \<open>KeyboardInterrupt\<close> are not
  subclasses of \<open>Exception\<close>; the others are. \<open>RequestException\<close> stands for
  \<open>requests.RequestException\<close> and all its subclasses (connection errors, the
  \<open>HTTPError\<close> of \<open>raise_for_status\<close>, the JSON decoding error of \<open>response.json()\<close>).
\<close>

datatype exn =
  ValueError | IndexError | KeyError | EOFError | RequestException
  | KeyboardInterrupt | SystemExit int

text \<open>
  A repository summary as the listing endpoint returns it: a JSON object, of which the
  program reads \<open>repo['name']\<close> and \<open>repo.get('owner', {}).get('login')\<close>. The second is
  \<open>None\<close> when the object has no owner or the owner has no login. The star and fork
  counts and the date, which only \<open>display_repos\<close> prints, are left out. Bodies are typed
  as the annotations of the source have them (\<open>List[Dict]\<close> for a page): a body of
  another shape, such as a repository object without a name, is outside the model.
\<close>

record repo =
  name :: string
  owner_login :: "string option"

text \<open>The fields of \<open>GitHubPrivacyManager\<close> that vary (headers and base URL derive from them).\<close>

record manager =
  token :: string
  username :: string

text \<open>
  The outcome of one HTTP call of the \<open>requests\<close> library: the call raises a
  \<open>RequestException\<close> (no response), or there is a response with a status code and a
  body; the body is \<open>None\<close> when it is not JSON (then \<open>response.json()\<close> raises the
  library's \<open>JSONDecodeError\<close>, a \<open>RequestException\<close>), else the decoded value, typed by
  the endpoint.
\<close>

datatype 'a http = ConnectionFailed | Response int "'a option"

definition raise_for_status :: "int \<Rightarrow> bool" where
  \<comment> \<open>\<open>response.raise_for_status()\<close> raises exactly for the client and server error codes.\<close>
  "raise_for_status st = (400 \<le> st \<and> st < 600)"

text \<open>
  The remote API, as seen by this client: what each of the three calls answers. The
  token travels in the headers of every call. Within one run an endpoint answers the
  same request in the same way.
\<close>

record server =
  user_endpoint :: "string \<Rightarrow> (string \<rightharpoonup> string) http"
  repos_endpoint :: "string \<Rightarrow> nat \<Rightarrow> repo list http"
  patch_endpoint :: "string \<Rightarrow> string \<Rightarrow> string \<Rightarrow> unit http"

text \<open>
  Effects. The terminal's pending input is a list of keys (a typed line, or the
  interrupt key); reading past its end is \<open>EOFError\<close>. Everything the program does to
  the outside is appended to a trace: HTTP requests, prompts, the printed messages that
  carry information, and the writing of the configuration file.
\<close>

datatype key = Line string | CtrlC

datatype request = GET_user | GET_repos nat | PATCH_repo string string

datatype prompt = TokenPrompt | UsernamePrompt | SavePrompt | SelectionPrompt | ConfirmPrompt

datatype message =
  AuthOk string | AuthFailed int | NetworkError
  | FetchError
  | PatchFailed string
  | NoPublicRepos | Found "string list"
  | SelectionOptions | InvalidSelection
  | AboutTo "string list"
  | NoReposSelected | Making nat | Processing string | Done | Failed | Summary nat nat
  | TokenRequired | CredentialsRequired
  | ListingComplete | NotFound "string set" | Cancelled | CancelledByUser | UnexpectedError

datatype event = Request request | Prompt prompt | Print message | SaveConfig string string

record io =
  stdin :: "key list"
  trace :: "event list"

definition emit :: "event \<Rightarrow> io \<Rightarrow> io" where
  "emit e s = s\<lparr>trace := trace s @ [e]\<rparr>"

definition input :: "prompt \<Rightarrow> io \<Rightarrow> (exn + string) \<times> io" where
  \<comment> \<open>\<open>input(prompt)\<close> (and \<open>getpass\<close>): shows the prompt, then reads one key.\<close>
  "input p s =
     (case stdin s of
        [] \<Rightarrow> (Inl EOFError, emit (Prompt p) s)
      | CtrlC # ks \<Rightarrow> (Inl KeyboardInterrupt, emit (Prompt p) (s\<lparr>stdin := ks\<rparr>))
      | Line l # ks \<Rightarrow> (Inr l, emit (Prompt p) (s\<lparr>stdin := ks\<rparr>)))"

section \<open>Interactive selection\<close>

text \<open>
  \<open>list(set(xs))\<close> removes duplicates and yields the elements in the iteration order of
  a Python set, which depends on the hashes of the strings (randomised per process).
  The model takes that order as a parameter.
\<close>

type_synonym set_order = "string list \<Rightarrow> string list"

definition list_of_set :: "set_order \<Rightarrow> string list \<Rightarrow> string list" where
  "list_of_set ord xs = ord (remdups xs)"


definition in_range :: "repo list \<Rightarrow> int \<Rightarrow> bool" where
  \<comment> \<open>\<open>1 <= i <= len(repos)\<close>\<close>
  "in_range repos i = (1 \<le> i \<and> i \<le> int (length repos))"

definition select_part :: "repo list \<Rightarrow> string \<Rightarrow> exn + string list" where
  \<comment> \<open>The body of \<open>for part in parts\<close>: the names one token appends, or the \<open>ValueError\<close>
      of \<open>int\<close> or of unpacking other than two values into \<open>start, end\<close>.\<close>
  "select_part repos part0 =
     (let part = strip part0 in
      if CHR ''-'' \<in> set part then
        (case map py_int (split CHR ''-'' part) of
           [Some start, Some end] \<Rightarrow>
             Inr (map (\<lambda>i. name (repos ! nat (i - 1))) (filter (in_range repos) [start..end]))
         | _ \<Rightarrow> Inl ValueError)
      else
        (case py_int part of
           None \<Rightarrow> Inl ValueError
         | Some i \<Rightarrow> Inr (if in_range repos i then [name (repos ! nat (i - 1))] else [])))"

fun select_parts :: "repo list \<Rightarrow> string list \<Rightarrow> string list \<Rightarrow> exn + string list" where
  \<comment> \<open>The loop over the parts, \<open>selected_repos\<close> as accumulator; the first error ends it.\<close>
  "select_parts repos [] selected_repos = Inr selected_repos"
| "select_parts repos (part # parts) selected_repos =
     (case select_part repos part of
        Inl e \<Rightarrow> Inl e
      | Inr names \<Rightarrow> select_parts repos parts (selected_repos @ names))"

definition parse_selection :: "repo list \<Rightarrow> string \<Rightarrow> exn + string list" where
  "parse_selection repos selection = select_parts repos (split CHR '','' selection) []"

fun selection_loop ::
  "set_order \<Rightarrow> repo list \<Rightarrow> event list \<Rightarrow> key list \<Rightarrow> (exn + string list) \<times> io" where
  \<comment> \<open>The \<open>while True\<close> of \<open>interactive_selection\<close>: one key per iteration.\<close>
  "selection_loop ord repos tr [] =
     (Inl EOFError, \<lparr>stdin = [], trace = tr @ [Prompt SelectionPrompt]\<rparr>)"
| "selection_loop ord repos tr (CtrlC # ks) =
     (Inl KeyboardInterrupt, \<lparr>stdin = ks, trace = tr @ [Prompt SelectionPrompt]\<rparr>)"
| "selection_loop ord repos tr (Line l # ks) =
     (let selection = lower (strip l); tr1 = tr @ [Prompt SelectionPrompt] in
      if selection = ''quit'' then (Inr [], \<lparr>stdin = ks, trace = tr1\<rparr>)
      else if selection = ''all'' then (Inr (map name repos), \<lparr>stdin = ks, trace = tr1\<rparr>)
      else
        (case parse_selection repos selection of
           Inr selected_repos \<Rightarrow> (Inr (list_of_set ord selected_repos), \<lparr>stdin = ks, trace = tr1\<rparr>)
         | Inl e \<Rightarrow>
             if e = ValueError \<or> e = IndexError
             then selection_loop ord repos (tr1 @ [Print InvalidSelection]) ks
             else (Inl e, \<lparr>stdin = ks, trace = tr1\<rparr>)))"

definition interactive_selection ::
  "set_order \<Rightarrow> repo list \<Rightarrow> io \<Rightarrow> (exn + string list) \<times> io" where
  "interactive_selection ord repos s =
     (if repos = [] then (Inr [], s)
      else selection_loop ord repos (trace s @ [Print SelectionOptions]) (stdin s))"

section \<open>Authentication, listing, update\<close>

definition test_authentication :: "server \<Rightarrow> manager \<Rightarrow> io \<Rightarrow> (exn + bool) \<times> io" where
  \<comment> \<open>\<open>user_data['login']\<close> on an object without that key is a \<open>KeyError\<close>, which the
      \<open>except requests.RequestException\<close> clause does not catch.\<close>
  "test_authentication srv m s =
     (let s1 = emit (Request GET_user) s in
      case user_endpoint srv (token m) of
        ConnectionFailed \<Rightarrow> (Inr False, emit (Print NetworkError) s1)
      | Response status_code body \<Rightarrow>
          if status_code = 200 then
            (case body of
               None \<Rightarrow> (Inr False, emit (Print NetworkError) s1)
             | Some user_data \<Rightarrow>
                 (case user_data ''login'' of
                    None \<Rightarrow> (Inl KeyError, s1)
                  | Some l \<Rightarrow> (Inr True, emit (Print (AuthOk l)) s1)))
          else (Inr False, emit (Print (AuthFailed status_code)) s1))"

definition owned :: "manager \<Rightarrow> repo \<Rightarrow> bool" where
  \<comment> \<open>\<open>repo.get('owner', {}).get('login') == self.username\<close>\<close>
  "owned m r = (owner_login r = Some (username m))"

text \<open>
  The \<open>while True\<close> of \<open>get_public_repos\<close>, with \<open>page\<close> and \<open>repos\<close> as loop state. A
  server that answers every page with a non-empty list keeps the loop running for
  ever: the function is partial, and \<open>None\<close> is the run that never returns.
\<close>

partial_function (option) fetch_pages ::
  "server \<Rightarrow> manager \<Rightarrow> nat \<Rightarrow> repo list \<Rightarrow> io \<Rightarrow> (repo list \<times> io) option" where
  "fetch_pages srv m page repos s =
     (case repos_endpoint srv (token m) page of
        ConnectionFailed \<Rightarrow> Some (repos, emit (Print FetchError) (emit (Request (GET_repos page)) s))
      | Response status_code body \<Rightarrow>
          if raise_for_status status_code
          then Some (repos, emit (Print FetchError) (emit (Request (GET_repos page)) s))
          else
            (case body of
               None \<Rightarrow> Some (repos, emit (Print FetchError) (emit (Request (GET_repos page)) s))
             | Some page_repos \<Rightarrow>
                 if page_repos = [] then Some (repos, emit (Request (GET_repos page)) s)
                 else fetch_pages srv m (page + 1) (repos @ filter (owned m) page_repos)
                        (emit (Request (GET_repos page)) s)))"

declare fetch_pages.simps [code]

definition get_public_repos :: "server \<Rightarrow> manager \<Rightarrow> io \<Rightarrow> (repo list \<times> io) option" where
  "get_public_repos srv m s = fetch_pages srv m 1 [] s"

definition make_repo_private :: "server \<Rightarrow> manager \<Rightarrow> string \<Rightarrow> io \<Rightarrow> bool \<times> io" where
  "make_repo_private srv m repo_name s =
     (let s1 = emit (Request (PATCH_repo (username m) repo_name)) s in
      case patch_endpoint srv (token m) (username m) repo_name of
        ConnectionFailed \<Rightarrow> (False, emit (Print (PatchFailed repo_name)) s1)
      | Response status_code body \<Rightarrow>
          if raise_for_status status_code then (False, emit (Print (PatchFailed repo_name)) s1)
          else (True, s1))"

definition display_repos :: "repo list \<Rightarrow> io \<Rightarrow> io" where
  \<comment> \<open>Of each numbered row only the name is kept.\<close>
  "display_repos repos s =
     (if repos = [] then emit (Print NoPublicRepos) s else emit (Print (Found (map name repos))) s)"

definition confirm_action :: "string list \<Rightarrow> io \<Rightarrow> (exn + bool) \<times> io" where
  "confirm_action repo_names s =
     (if repo_names = [] then (Inr False, s)
      else
        (case input ConfirmPrompt (emit (Print (AboutTo repo_names)) s) of
           (Inl e, s1) \<Rightarrow> (Inl e, s1)
         | (Inr l, s1) \<Rightarrow>
             (let confirm = lower (strip l) in (Inr (confirm = ''yes'' \<or> confirm = ''y''), s1))))"

fun process_loop :: "server \<Rightarrow> manager \<Rightarrow> string list \<Rightarrow> nat \<Rightarrow> io \<Rightarrow> nat \<times> io" where
  \<comment> \<open>\<open>for repo_name in repo_names\<close>, with \<open>success_count\<close>\<close>
  "process_loop srv m [] success_count s = (success_count, s)"
| "process_loop srv m (repo_name # rest) success_count s =
     (case make_repo_private srv m repo_name (emit (Print (Processing repo_name)) s) of
        (ok, s1) \<Rightarrow>
          if ok then process_loop srv m rest (success_count + 1) (emit (Print Done) s1)
          else process_loop srv m rest success_count (emit (Print Failed) s1))"

definition process_repos :: "server \<Rightarrow> manager \<Rightarrow> string list \<Rightarrow> io \<Rightarrow> io" where
  "process_repos srv m repo_names s =
     (if repo_names = [] then emit (Print NoReposSelected) s
      else
        (case process_loop srv m repo_names 0 (emit (Print (Making (length repo_names))) s) of
           (success_count, s1) \<Rightarrow> emit (Print (Summary success_count (length repo_names))) s1))"

section \<open>Credentials and the main program\<close>

text \<open>
  What \<open>get_credentials\<close> reads: the two environment variables (after \<open>load_dotenv\<close>) and
  the dictionary \<open>load_config\<close> returns (empty when there is no readable file).
\<close>

record environment =
  GITHUB_TOKEN :: "string option"
  GITHUB_USERNAME :: "string option"
  config :: "string \<rightharpoonup> string"

definition truthy :: "string option \<Rightarrow> bool" where
  \<comment> \<open>Neither \<open>None\<close> nor the empty string.\<close>
  "truthy v = (case v of None \<Rightarrow> False | Some x \<Rightarrow> x \<noteq> [])"

definition py_or :: "string option \<Rightarrow> string option \<Rightarrow> string option" where
  \<comment> \<open>\<open>a or b\<close>\<close>
  "py_or a b = (if truthy a then a else b)"

definition get_credentials :: "environment \<Rightarrow> io \<Rightarrow> (exn + string \<times> string) \<times> io" where
  "get_credentials env s =
     (case
        (case py_or (GITHUB_TOKEN env) (config env ''token'') of
           Some t \<Rightarrow> if t \<noteq> [] then (Inr t, s) else
             (case input TokenPrompt (emit (Print TokenRequired) s) of
                (Inl e, s1) \<Rightarrow> (Inl e, s1) | (Inr l, s1) \<Rightarrow> (Inr (strip l), s1))
         | None \<Rightarrow>
             (case input TokenPrompt (emit (Print TokenRequired) s) of
                (Inl e, s1) \<Rightarrow> (Inl e, s1) | (Inr l, s1) \<Rightarrow> (Inr (strip l), s1)))
      of
        (Inl e, s1) \<Rightarrow> (Inl e, s1)
      | (Inr tok, s1) \<Rightarrow>
          (case
             (case py_or (GITHUB_USERNAME env) (config env ''username'') of
                Some u \<Rightarrow> if u \<noteq> [] then (Inr u, s1) else
                  (case input UsernamePrompt s1 of
                     (Inl e, s2) \<Rightarrow> (Inl e, s2) | (Inr l, s2) \<Rightarrow> (Inr (strip l), s2))
              | None \<Rightarrow>
                  (case input UsernamePrompt s1 of
                     (Inl e, s2) \<Rightarrow> (Inl e, s2) | (Inr l, s2) \<Rightarrow> (Inr (strip l), s2)))
           of
             (Inl e, s2) \<Rightarrow> (Inl e, s2)
           | (Inr usr, s2) \<Rightarrow>
               if \<not> truthy (config env ''token'') \<or> \<not> truthy (config env ''username'') then
                 (case input SavePrompt s2 of
                    (Inl e, s3) \<Rightarrow> (Inl e, s3)
                  | (Inr l, s3) \<Rightarrow>
                      (let save_creds = lower (strip l) in
                       if save_creds = ''y'' \<or> save_creds = ''yes''
                       then (Inr (tok, usr), emit (SaveConfig tok usr) s3)
                       else (Inr (tok, usr), s3)))
               else (Inr (tok, usr), s2)))"

text \<open>The parsed command line: \<open>--list\<close>, \<open>--batch NAMES\<close>, \<open>--all\<close>.\<close>

record args =
  list_flag :: bool
  batch :: "string option"
  all_flag :: bool

definition batch_selection :: "repo list \<Rightarrow> string \<Rightarrow> string list \<times> string set" where
  \<comment> \<open>The \<open>elif args.batch\<close> branch: \<open>selected_repos\<close> and \<open>missing\<close>.\<close>
  "batch_selection repos b =
     (let repo_names = map strip (split CHR '','' b);
          available_names = set (map name repos);
          selected_repos = filter (\<lambda>nm. nm \<in> available_names) repo_names;
          missing = set repo_names - set selected_repos
      in (selected_repos, missing))"

definition select_repos ::
  "set_order \<Rightarrow> args \<Rightarrow> repo list \<Rightarrow> io \<Rightarrow> (exn + string list) \<times> io" where
  \<comment> \<open>The \<open>if args.all / elif args.batch / else\<close> of \<open>main\<close>.\<close>
  "select_repos ord a repos s =
     (if all_flag a then (Inr (map name repos), s)
      else if truthy (batch a) then
        (case batch a of
           Some b \<Rightarrow>
             (case batch_selection repos b of
                (selected_repos, missing) \<Rightarrow>
                  (Inr selected_repos, if missing \<noteq> {} then emit (Print (NotFound missing)) s else s))
         | None \<Rightarrow> interactive_selection ord repos s)
      else interactive_selection ord repos s)"

definition update_step :: "server \<Rightarrow> manager \<Rightarrow> string list \<Rightarrow> io \<Rightarrow> (exn + unit) \<times> io" where
  \<comment> \<open>\<open>if selected_repos and manager.confirm_action(selected_repos): ... else: ...\<close>\<close>
  "update_step srv m selected_repos s =
     (if selected_repos = [] then (Inr (), emit (Print Cancelled) s)
      else
        (case confirm_action selected_repos s of
           (Inl e, s1) \<Rightarrow> (Inl e, s1)
         | (Inr ok, s1) \<Rightarrow>
             if ok then (Inr (), process_repos srv m selected_repos s1)
             else (Inr (), emit (Print Cancelled) s1)))"

text \<open>
  The body of the \<open>try\<close> of \<open>main\<close>, in two parts. The first runs from
  \<open>get_credentials\<close> to the end of the selection: it ends the body early (an exception,
  among them the \<open>SystemExit(1)\<close> of \<open>sys.exit(1)\<close>, or the \<open>return\<close> of \<open>--list\<close>), or
  hands the manager and \<open>selected_repos\<close> to the second part, the update step.
\<close>

definition select_phase ::
  "set_order \<Rightarrow> args \<Rightarrow> environment \<Rightarrow> server \<Rightarrow> io
     \<Rightarrow> (((exn + unit) + manager \<times> string list) \<times> io) option" where
  "select_phase ord a env srv s =
     (case get_credentials env s of
        (Inl e, s1) \<Rightarrow> Some (Inl (Inl e), s1)
      | (Inr (tok, usr), s1) \<Rightarrow>
          if tok = [] \<or> usr = []
          then Some (Inl (Inl (SystemExit 1)), emit (Print CredentialsRequired) s1)
          else
            (let m = \<lparr>token = tok, username = usr\<rparr> in
             case test_authentication srv m s1 of
               (Inl e, s2) \<Rightarrow> Some (Inl (Inl e), s2)
             | (Inr ok, s2) \<Rightarrow>
                 if \<not> ok then Some (Inl (Inl (SystemExit 1)), s2)
                 else
                   (case get_public_repos srv m s2 of
                      None \<Rightarrow> None
                    | Some (repos, s3) \<Rightarrow>
                        (let s4 = display_repos repos s3 in
                         if list_flag a then Some (Inl (Inr ()), emit (Print ListingComplete) s4)
                         else
                           (case select_repos ord a repos s4 of
                              (Inl e, s5) \<Rightarrow> Some (Inl (Inl e), s5)
                            | (Inr selected_repos, s5) \<Rightarrow> Some (Inr (m, selected_repos), s5))))))"

definition main_body ::
  "set_order \<Rightarrow> args \<Rightarrow> environment \<Rightarrow> server \<Rightarrow> io \<Rightarrow> ((exn + unit) \<times> io) option" where
  "main_body ord a env srv s =
     (case select_phase ord a env srv s of
        None \<Rightarrow> None
      | Some (Inl ended, s5) \<Rightarrow> Some (ended, s5)
      | Some (Inr (m, selected_repos), s5) \<Rightarrow> Some (update_step srv m selected_repos s5))"

record run =
  exit_code :: int
  final :: io

definition handlers :: "(exn + unit) \<times> io \<Rightarrow> run" where
  \<comment> \<open>The \<open>except\<close> clauses of \<open>main\<close> and the exit status of the process: \<open>SystemExit\<close>
      passes through both clauses, a normal return is status 0.\<close>
  "handlers r =
     (case r of
        (Inr u, s) \<Rightarrow> \<lparr>exit_code = 0, final = s\<rparr>
      | (Inl KeyboardInterrupt, s) \<Rightarrow> \<lparr>exit_code = 0, final = emit (Print CancelledByUser) s\<rparr>
      | (Inl (SystemExit n), s) \<Rightarrow> \<lparr>exit_code = n, final = s\<rparr>
      | (Inl e, s) \<Rightarrow> \<lparr>exit_code = 1, final = emit (Print UnexpectedError) s\<rparr>)"

definition main :: "set_order \<Rightarrow> args \<Rightarrow> environment \<Rightarrow> server \<Rightarrow> io \<Rightarrow> run option" where
  "main ord a env srv s = map_option handlers (main_body ord a env srv s)"

section \<open>Observing a run\<close>

fun request_of :: "event \<Rightarrow> request option" where
  "request_of (Request r) = Some r"
| "request_of e = None"

definition requests :: "io \<Rightarrow> request list" where
  \<comment> \<open>The HTTP requests issued so far, in order.\<close>
  "requests s = List.map_filter request_of (trace s)"

fun is_patch :: "request \<Rightarrow> bool" where
  "is_patch (PATCH_repo ownr nm) = True"
| "is_patch r = False"

definition patch_calls :: "io \<Rightarrow> request list" where
  \<comment> \<open>The update calls issued so far.\<close>
  "patch_calls s = filter is_patch (requests s)"

fun is_Exception :: "exn \<Rightarrow> bool" where
  \<comment> \<open>The classes \<open>except Exception\<close> catches.\<close>
  "is_Exception KeyboardInterrupt = False"
| "is_Exception (SystemExit n) = False"
| "is_Exception e = True"

section \<open>Selection strings, as the specification describes them\<close>

text \<open>
  A valid selection string is a comma-joined, non-empty sequence of tokens; a token is an
  integer \<open>N\<close> or a range \<open>N-M\<close>, written in decimal. A token refers to the positions
  \<open>N\<close>, or \<open>N\<close> to \<open>M\<close> inclusive.
\<close>

datatype token = Single nat | Range nat nat

fun decimal :: "nat \<Rightarrow> string" where
  "decimal n = (if n < 10 then [char_of (48 + n)] else decimal (n div 10) @ [char_of (48 + n mod 10)])"

declare decimal.simps [simp del]

fun render_token :: "token \<Rightarrow> string" where
  "render_token (Single n) = decimal n"
| "render_token (Range n m) = decimal n @ ''-'' @ decimal m"





text \<open>
  For an arbitrary part of an input line, with \<open>int\<close> deciding what an integer is: a
  part without \<open>-\<close> that is an integer \<open>N\<close> refers to position \<open>N\<close>, a part with exactly
  one \<open>-\<close> between two integers \<open>N\<close> and \<open>M\<close> to the positions \<open>N\<close> to \<open>M\<close>, and every other
  part is malformed (a non-integer, or a malformed range: \<open>-\<close> is the range separator, so
  that \<open>-1\<close> is a range without a start).
\<close>

definition token_range :: "string \<Rightarrow> (int \<times> int) option" where
  "token_range part0 =
     (let part = strip part0 in
      if CHR ''-'' \<in> set part then
        (case split CHR ''-'' part of
           [x, y] \<Rightarrow>
             (case (py_int x, py_int y) of
                (Some n, Some m) \<Rightarrow> Some (n, m)
              | _ \<Rightarrow> None)
         | _ \<Rightarrow> None)
      else
        (case py_int part of
           Some n \<Rightarrow> Some (n, n)
         | None \<Rightarrow> None))"

definition malformed :: "string \<Rightarrow> bool" where
  "malformed part = (token_range part = None)"



section \<open>Page sequences, as the specification describes them\<close>

fun request_error :: "'a http \<Rightarrow> bool" where
  \<comment> \<open>The page request fails with a request error: no response, an error status, or a
      body that is not JSON.\<close>
  "request_error ConnectionFailed = True"
| "request_error (Response status_code body) = (raise_for_status status_code \<or> body = None)"

fun serves :: "server \<Rightarrow> manager \<Rightarrow> nat \<Rightarrow> repo list list \<Rightarrow> bool" where
  \<comment> \<open>From page number \<open>k\<close> on, the endpoint answers with the given pages, each with at
      least one item and without error.\<close>
  "serves srv m k [] = True"
| "serves srv m k (p # ps) =
     (p \<noteq> []
      \<and> (case repos_endpoint srv (token m) k of
           Response status_code (Some q) \<Rightarrow> q = p \<and> \<not> raise_for_status status_code
         | _ \<Rightarrow> False)
      \<and> serves srv m (k + 1) ps)"

definition requested :: "nat \<Rightarrow> nat \<Rightarrow> io \<Rightarrow> io" where
  \<comment> \<open>The pages \<open>k\<close> up to \<open>l - 1\<close> have been requested, one after the other.\<close>
  "requested k l s = s\<lparr>trace := trace s @ map (\<lambda>page. Request (GET_repos page)) [k..<l]\<rparr>"

section \<open>Exit conditions, as the specification names them\<close>

definition credentials_missing :: "environment \<Rightarrow> io \<Rightarrow> bool" where
  \<comment> \<open>\<open>get_credentials\<close> returns, and the token or the username is empty.\<close>
  "credentials_missing env s =
     (case get_credentials env s of
        (Inr (tok, usr), s1) \<Rightarrow> tok = [] \<or> usr = []
      | (Inl e, s1) \<Rightarrow> False)"

definition authentication_fails :: "environment \<Rightarrow> server \<Rightarrow> io \<Rightarrow> bool" where
  \<comment> \<open>There are credentials, and \<open>test_authentication\<close> returns \<open>False\<close>.\<close>
  "authentication_fails env srv s =
     (case get_credentials env s of
        (Inr (tok, usr), s1) \<Rightarrow>
          tok \<noteq> [] \<and> usr \<noteq> []
          \<and> fst (test_authentication srv \<lparr>token = tok, username = usr\<rparr> s1) = Inr False
      | (Inl e, s1) \<Rightarrow> False)"

definition unexpected_error :: "set_order \<Rightarrow> args \<Rightarrow> environment \<Rightarrow> server \<Rightarrow> io \<Rightarrow> bool" where
  \<comment> \<open>An exception of class \<open>Exception\<close> leaves the body of the \<open>try\<close>.\<close>
  "unexpected_error ord a env srv s =
     (case main_body ord a env srv s of
        Some (Inl e, s1) \<Rightarrow> is_Exception e
      | _ \<Rightarrow> False)"

section \<open>A small world to run the program in\<close>

definition example_env :: environment where
  "example_env =
     \<lparr>GITHUB_TOKEN = Some ''t0'', GITHUB_USERNAME = Some ''u'',
      config = [''token'' \<mapsto> ''t0'', ''username'' \<mapsto> ''u'']\<rparr>"

definition example_manager :: manager where
  "example_manager = \<lparr>token = ''t0'', username = ''u''\<rparr>"

definition example_repos :: "repo list" where
  "example_repos =
     [\<lparr>name = ''a'', owner_login = Some ''u''\<rparr>,
      \<lparr>name = ''b'', owner_login = Some ''other''\<rparr>,
      \<lparr>name = ''c'', owner_login = Some ''u''\<rparr>]"

definition example_server :: "repo list list \<Rightarrow> (string \<Rightarrow> unit http) \<Rightarrow> server" where
  \<comment> \<open>Knows the token \<open>t0\<close> of the user \<open>u\<close>, serves the given pages and then an empty one,
      and answers the update of a repository as the given function says.\<close>
  "example_server pages patch =
     \<lparr>user_endpoint =
        (\<lambda>t. if t = ''t0'' then Response 200 (Some [''login'' \<mapsto> ''u'']) else Response 401 None),
      repos_endpoint =
        (\<lambda>t page. if 1 \<le> page \<and> page \<le> length pages then Response 200 (Some (pages ! (page - 1)))
                   else Response 200 (Some [])),
      patch_endpoint = (\<lambda>t ownr nm. patch nm)\<rparr>"

definition all_args :: args where
  \<comment> \<open>\<open>--all\<close>\<close>
  "all_args = \<lparr>list_flag = False, batch = None, all_flag = True\<rparr>"

definition batch_args :: "string \<Rightarrow> args" where
  \<comment> \<open>\<open>--batch NAMES\<close>\<close>
  "batch_args b = \<lparr>list_flag = False, batch = Some b, all_flag = False\<rparr>"

definition no_args :: args where
  \<comment> \<open>No flag: interactive mode.\<close>
  "no_args = \<lparr>list_flag = False, batch = None, all_flag = False\<rparr>"

definition typed :: "string list \<Rightarrow> io" where
  \<comment> \<open>The start of a run: the lines the user will type, nothing done yet.\<close>
  "typed ls = \<lparr>stdin = map Line ls, trace = []\<rparr>"

section \<open>Effects of the operations on the trace\<close>

lemma requests_emit [simp]:
  "requests (emit e s) = requests s @ (case request_of e of None \<Rightarrow> [] | Some r \<Rightarrow> [r])"
  by (simp add: requests_def emit_def List.map_filter_def split: option.splits)

lemma stdin_emit [simp]: "stdin (emit e s) = stdin s"
  by (simp add: emit_def)

lemma trace_emit [simp]: "trace (emit e s) = trace s @ [e]"
  by (simp add: emit_def)

lemma requests_stdin_update [simp]: "requests (s\<lparr>stdin := ks\<rparr>) = requests s"
  by (simp add: requests_def)

lemma input_requests: "input p s = (r, s') \<Longrightarrow> requests s' = requests s"
  by (auto simp: input_def split: list.splits key.splits)

lemma make_repo_private_iff:
  "fst (make_repo_private srv m nm s) \<longleftrightarrow>
     (\<exists>st b. patch_endpoint srv (token m) (username m) nm = Response st b \<and> \<not> raise_for_status st)"
  by (auto simp: make_repo_private_def Let_def split: http.splits)

lemma make_repo_private_requests:
  "requests (snd (make_repo_private srv m nm s)) = requests s @ [PATCH_repo (username m) nm]"
  by (auto simp: make_repo_private_def Let_def split: http.splits)

lemma make_repo_private_stdin:
  "stdin (snd (make_repo_private srv m nm s)) = stdin s"
  by (auto simp: make_repo_private_def Let_def split: http.splits)

lemma make_repo_private_fst_indep:
  "fst (make_repo_private srv m nm s) = fst (make_repo_private srv m nm s')"
  by (simp add: make_repo_private_iff)

lemma process_loop_requests:
  "requests (snd (process_loop srv m nms k s)) = requests s @ map (PATCH_repo (username m)) nms"
proof (induction nms arbitrary: k s)
  case Nil
  then show ?case by simp
next
  case (Cons nm nms)
  show ?case
    by (cases "make_repo_private srv m nm (emit (Print (Processing nm)) s)")
       (use make_repo_private_requests[of srv m nm "emit (Print (Processing nm)) s"] in
         \<open>auto simp: Cons.IH\<close>)
qed

lemma process_loop_count:
  "fst (process_loop srv m nms k s) = k + length (filter (\<lambda>nm. fst (make_repo_private srv m nm s0)) nms)"
proof (induction nms arbitrary: k s)
  case Nil
  then show ?case by simp
next
  case (Cons nm nms)
  show ?case
    by (cases "make_repo_private srv m nm (emit (Print (Processing nm)) s)")
       (use make_repo_private_fst_indep[of srv m nm "emit (Print (Processing nm)) s" s0] in
         \<open>auto simp: Cons.IH\<close>)
qed

lemma process_loop_stdin:
  "stdin (snd (process_loop srv m nms k s)) = stdin s"
proof (induction nms arbitrary: k s)
  case Nil
  then show ?case by simp
next
  case (Cons nm nms)
  show ?case
    by (cases "make_repo_private srv m nm (emit (Print (Processing nm)) s)")
       (use make_repo_private_stdin[of srv m nm "emit (Print (Processing nm)) s"] in
         \<open>auto simp: Cons.IH\<close>)
qed

lemma process_repos_requests:
  "requests (process_repos srv m nms s) = requests s @ map (PATCH_repo (username m)) nms"
  by (cases "process_loop srv m nms 0 (emit (Print (Making (length nms))) s)")
     (use process_loop_requests[of srv m nms 0 "emit (Print (Making (length nms))) s"] in
       \<open>auto simp: process_repos_def\<close>)

lemma process_repos_summary:
  "nms \<noteq> [] \<Longrightarrow> last (trace (process_repos srv m nms s)) =
     Print (Summary (length (filter (\<lambda>nm. fst (make_repo_private srv m nm s0)) nms)) (length nms))"
  by (cases "process_loop srv m nms 0 (emit (Print (Making (length nms))) s)")
     (use process_loop_count[of srv m nms 0 "emit (Print (Making (length nms))) s" s0] in
       \<open>auto simp: process_repos_def\<close>)

lemma patch_calls_emit [simp]:
  "patch_calls (emit e s) =
     patch_calls s @ (case request_of e of None \<Rightarrow> [] | Some r \<Rightarrow> if is_patch r then [r] else [])"
  by (simp add: patch_calls_def split: option.splits)

lemma patch_calls_requests: "requests s' = requests s \<Longrightarrow> patch_calls s' = patch_calls s"
  by (simp add: patch_calls_def)

lemma get_credentials_requests:
  "get_credentials env s = (r, s') \<Longrightarrow> requests s' = requests s"
  unfolding get_credentials_def
  by (auto split: option.splits if_splits prod.splits sum.splits dest!: input_requests simp: Let_def)

lemma test_authentication_requests:
  "requests (snd (test_authentication srv m s)) = requests s @ [GET_user]"
  by (auto simp: test_authentication_def Let_def split: http.splits option.splits)

lemma test_authentication_stdin:
  "stdin (snd (test_authentication srv m s)) = stdin s"
  by (auto simp: test_authentication_def Let_def split: http.splits option.splits)

lemma fetch_pages_effects:
  assumes "fetch_pages srv m page repos s = Some y"
  shows "patch_calls (snd y) = patch_calls s \<and> stdin (snd y) = stdin s"
proof (rule fetch_pages.raw_induct
    [where P = "\<lambda>srv m page repos s y. patch_calls (snd y) = patch_calls s \<and> stdin (snd y) = stdin s",
     OF _ assms])
  fix f srv m page repos s y
  assume IH: "\<And>srv m page repos s y. f srv m page repos s = Some y \<Longrightarrow>
                 patch_calls (snd y) = patch_calls s \<and> stdin (snd y) = stdin s"
    and eq: "(case repos_endpoint srv (token m) page of
        ConnectionFailed \<Rightarrow> Some (repos, emit (Print FetchError) (emit (Request (GET_repos page)) s))
      | Response status_code body \<Rightarrow>
          if raise_for_status status_code
          then Some (repos, emit (Print FetchError) (emit (Request (GET_repos page)) s))
          else
            (case body of
               None \<Rightarrow> Some (repos, emit (Print FetchError) (emit (Request (GET_repos page)) s))
             | Some page_repos \<Rightarrow>
                 if page_repos = [] then Some (repos, emit (Request (GET_repos page)) s)
                 else f srv m (page + 1) (repos @ filter (owned m) page_repos)
                        (emit (Request (GET_repos page)) s))) = Some y"
  from eq show "patch_calls (snd y) = patch_calls s \<and> stdin (snd y) = stdin s"
    by (auto split: http.splits if_splits option.splits dest!: IH)
qed
lemma display_repos_requests [simp]: "requests (display_repos repos s) = requests s"
  by (simp add: display_repos_def)

lemma display_repos_stdin [simp]: "stdin (display_repos repos s) = stdin s"
  by (simp add: display_repos_def)

lemma selection_loop_requests:
  "requests (snd (selection_loop ord repos tr ks)) = List.map_filter request_of tr"
proof (induction ord repos tr ks rule: selection_loop.induct)
  case (3 ord repos tr l ks)
  then show ?case
    by (auto simp: Let_def requests_def List.map_filter_def split: sum.splits)
qed (simp_all add: requests_def List.map_filter_def)

lemma interactive_selection_requests:
  "requests (snd (interactive_selection ord repos s)) = requests s"
  by (simp add: interactive_selection_def selection_loop_requests)
     (simp add: requests_def List.map_filter_def)

lemma select_repos_requests:
  "requests (snd (select_repos ord a repos s)) = requests s"
  by (auto simp: select_repos_def interactive_selection_requests split: option.splits prod.splits)

lemma select_phase_patch_calls:
  assumes "select_phase ord a env srv s = Some (x, s')"
  shows "patch_calls s' = patch_calls s"
proof (cases "get_credentials env s")
  case (Pair r s1)
  note gc = patch_calls_requests[OF get_credentials_requests[OF Pair]]
  show ?thesis
  proof (cases r)
    case (Inl e)
    with assms Pair gc show ?thesis by (simp add: select_phase_def)
  next
    case (Inr cred)
    obtain tok usr where cred: "cred = (tok, usr)" by (cases cred)
    let ?m = "\<lparr>token = tok, username = usr\<rparr>"
    show ?thesis
    proof (cases "tok = [] \<or> usr = []")
      case True
      with assms Pair Inr cred gc show ?thesis by (auto simp: select_phase_def)
    next
      case False
      obtain r2 s2 where ta: "test_authentication srv ?m s1 = (r2, s2)"
        by (cases "test_authentication srv ?m s1")
      have s2: "patch_calls s2 = patch_calls s"
        using test_authentication_requests[of srv ?m s1] ta gc by (simp add: patch_calls_def)
      show ?thesis
      proof (cases "r2 = Inr True")
        case notok: False
        with assms Pair Inr cred False ta s2 show ?thesis
          by (cases r2) (auto simp: select_phase_def Let_def)
      next
        case True
        from assms Pair Inr cred False ta True
        obtain repos s3 where gp: "get_public_repos srv ?m s2 = Some (repos, s3)"
          by (cases "get_public_repos srv ?m s2") (auto simp: select_phase_def Let_def)
        from fetch_pages_effects[OF gp[unfolded get_public_repos_def]] s2
        have s3: "patch_calls s3 = patch_calls s" by simp
        have s4: "patch_calls (display_repos repos s3) = patch_calls s"
          using s3 by (simp add: patch_calls_def)
        show ?thesis
        proof (cases "list_flag a")
          case lf: True
          with assms Pair Inr cred False ta True gp s4 show ?thesis
            by (auto simp: select_phase_def Let_def)
        next
          case lf: False
          obtain r5 s5 where sr: "select_repos ord a repos (display_repos repos s3) = (r5, s5)"
            by (cases "select_repos ord a repos (display_repos repos s3)")
          have "patch_calls s5 = patch_calls s"
            using select_repos_requests[of ord a repos "display_repos repos s3"] sr s4
            by (simp add: patch_calls_def)
          with assms Pair Inr cred False ta True gp lf sr show ?thesis
            by (cases r5) (auto simp: select_phase_def Let_def)
        qed
      qed
    qed
  qed
qed




lemma main_of_select_phase:
  "select_phase ord a env srv s0 = Some (Inr (m, sel), s) \<Longrightarrow>
     main ord a env srv s0 = Some (handlers (update_step srv m sel s))"
  by (simp add: main_def main_body_def)

section \<open>The empty selection\<close>

text \<open>
  Claim C10. For the empty list, \<open>confirm_action\<close> returns \<open>False\<close> and leaves the
  terminal untouched (no prompt, no key read); \<open>process_repos\<close> prints that nothing is
  selected and issues no update call; the update step of \<open>main\<close> takes the cancelled
  branch. Program-wide: whenever the selection of a run of \<open>main\<close> is empty, the run
  prints the cancellation, exits with status 0 and has issued no PATCH request.
\<close>

theorem empty_selection_is_cancelled:
  "confirm_action [] s = (Inr False, s)
   \<and> process_repos srv m [] s = emit (Print NoReposSelected) s
   \<and> patch_calls (process_repos srv m [] s) = patch_calls s
   \<and> update_step srv m [] s = (Inr (), emit (Print Cancelled) s)
   \<and> (select_phase ord a env srv s0 = Some (Inr (m, []), s) \<longrightarrow>
        main ord a env srv s0 = Some \<lparr>exit_code = 0, final = emit (Print Cancelled) s\<rparr>
        \<and> patch_calls (emit (Print Cancelled) s) = patch_calls s0)"
proof -
  have "select_phase ord a env srv s0 = Some (Inr (m, []), s) \<Longrightarrow>
        main ord a env srv s0 = Some \<lparr>exit_code = 0, final = emit (Print Cancelled) s\<rparr>
        \<and> patch_calls (emit (Print Cancelled) s) = patch_calls s0"
    using select_phase_patch_calls[of ord a env srv s0 "Inr (m, [])" s]
    by (simp add: main_of_select_phase update_step_def handlers_def)
  then show ?thesis
    by (simp add: confirm_action_def process_repos_def update_step_def)
qed

theorem empty_selection_is_cancelled_witness:
  "select_phase id all_args example_env (example_server [] (\<lambda>nm. ConnectionFailed)) (typed []) =
     Some (Inr (example_manager, []),
           \<lparr>stdin = [], trace = [Request GET_user, Print (AuthOk ''u''), Request (GET_repos 1), Print NoPublicRepos]\<rparr>)
   \<and> main id all_args example_env (example_server [] (\<lambda>nm. ConnectionFailed)) (typed []) =
     Some \<lparr>exit_code = 0,
           final = \<lparr>stdin = [], trace = [Request GET_user, Print (AuthOk ''u''), Request (GET_repos 1),
                                         Print NoPublicRepos, Print Cancelled]\<rparr>\<rparr>
   \<and> patch_calls \<lparr>stdin = [], trace = [Request GET_user, Print (AuthOk ''u''), Request (GET_repos 1),
                                         Print NoPublicRepos, Print Cancelled]\<rparr> = []"
proof -
  have h: "select_phase id all_args example_env (example_server [] (\<lambda>nm. ConnectionFailed)) (typed []) =
     Some (Inr (example_manager, []),
           \<lparr>stdin = [], trace = [Request GET_user, Print (AuthOk ''u''), Request (GET_repos 1), Print NoPublicRepos]\<rparr>)"
    by code_simp
  have p: "patch_calls (typed []) = []"
    by (simp add: typed_def patch_calls_def requests_def List.map_filter_def)
  show ?thesis
    using h p empty_selection_is_cancelled[of
        "\<lparr>stdin = [], trace = [Request GET_user, Print (AuthOk ''u''), Request (GET_repos 1), Print NoPublicRepos]\<rparr>"
        "example_server [] (\<lambda>nm. ConnectionFailed)" example_manager id all_args example_env "typed []"]
    by (simp add: emit_def)
qed

section \<open>Declined confirmation\<close>



section \<open>Updating the selected repositories\<close>

text \<open>
  A final response whose status is neither a success nor an error code, such as
  304, passes \<open>raise_for_status\<close>: \<open>make_repo_private\<close> returns \<open>True\<close> for it.
\<close>

theorem make_private_status_counterexample:
  "fst (make_repo_private (example_server [] (\<lambda>nm. Response 304 None)) example_manager ''a'' (typed []))
   \<and> \<not> (200 \<le> (304::int) \<and> (304::int) < 300)"
  by (simp add: make_repo_private_iff example_server_def raise_for_status_def)

text \<open>
  Claim C5, as the code has it. \<open>make_repo_private\<close> returns \<open>True\<close> if and only if the
  PATCH call yields a response whose status is outside 400 to 599; so it returns \<open>True\<close>
  for every 2xx status and \<open>False\<close> for every 4xx and 5xx status and when the call fails
  without a response. \<open>process_repos\<close> issues one PATCH per selected name, in order,
  whatever the results of the earlier ones, and its last message is the summary with
  the number of names for which \<open>make_repo_private\<close> returned \<open>True\<close>, out of the number
  of selected names.
\<close>

theorem make_private_and_summary:
  "(fst (make_repo_private srv m nm s) \<longleftrightarrow>
      (\<exists>st b. patch_endpoint srv (token m) (username m) nm = Response st b \<and> \<not> (400 \<le> st \<and> st < 600)))
   \<and> (patch_endpoint srv (token m) (username m) nm = Response st b \<and> 200 \<le> st \<and> st < 300
        \<longrightarrow> fst (make_repo_private srv m nm s))
   \<and> (patch_endpoint srv (token m) (username m) nm = Response st b \<and> 400 \<le> st \<and> st < 600
        \<longrightarrow> \<not> fst (make_repo_private srv m nm s))
   \<and> (patch_endpoint srv (token m) (username m) nm = ConnectionFailed
        \<longrightarrow> \<not> fst (make_repo_private srv m nm s))
   \<and> requests (process_repos srv m repo_names s) = requests s @ map (PATCH_repo (username m)) repo_names
   \<and> (repo_names \<noteq> [] \<longrightarrow>
        last (trace (process_repos srv m repo_names s)) =
          Print (Summary (length (filter (\<lambda>nm. fst (make_repo_private srv m nm s)) repo_names))
                         (length repo_names)))"
proof -
  have iff: "fst (make_repo_private srv m nm s) \<longleftrightarrow>
      (\<exists>st b. patch_endpoint srv (token m) (username m) nm = Response st b \<and> \<not> (400 \<le> st \<and> st < 600))"
    by (simp add: make_repo_private_iff raise_for_status_def)
  have ok: "fst (make_repo_private srv m nm s)"
    if "patch_endpoint srv (token m) (username m) nm = Response st b" "200 \<le> st" "st < 300"
    using that by (simp add: iff)
  have err: "\<not> fst (make_repo_private srv m nm s)"
    if "patch_endpoint srv (token m) (username m) nm = Response st b" "400 \<le> st" "st < 600"
    using that by (simp add: iff)
  have net: "\<not> fst (make_repo_private srv m nm s)"
    if "patch_endpoint srv (token m) (username m) nm = ConnectionFailed"
    using that by (simp add: iff)
  note process_repos_requests[of srv m repo_names s] process_repos_summary[of repo_names srv m s s]
  with iff ok err net show ?thesis by blast
qed

theorem make_private_and_summary_witness:
  "patch_endpoint (example_server [] (\<lambda>nm. if nm = ''a'' then Response 204 None
        else if nm = ''b'' then Response 403 None else ConnectionFailed)) ''t0'' ''u'' ''a'' = Response 204 None
   \<and> fst (make_repo_private (example_server [] (\<lambda>nm. if nm = ''a'' then Response 204 None
        else if nm = ''b'' then Response 403 None else ConnectionFailed)) example_manager ''a'' (typed []))
   \<and> patch_endpoint (example_server [] (\<lambda>nm. if nm = ''a'' then Response 204 None
        else if nm = ''b'' then Response 403 None else ConnectionFailed)) ''t0'' ''u'' ''b'' = Response 403 None
   \<and> \<not> fst (make_repo_private (example_server [] (\<lambda>nm. if nm = ''a'' then Response 204 None
        else if nm = ''b'' then Response 403 None else ConnectionFailed)) example_manager ''b'' (typed []))
   \<and> patch_endpoint (example_server [] (\<lambda>nm. if nm = ''a'' then Response 204 None
        else if nm = ''b'' then Response 403 None else ConnectionFailed)) ''t0'' ''u'' ''c'' = ConnectionFailed
   \<and> \<not> fst (make_repo_private (example_server [] (\<lambda>nm. if nm = ''a'' then Response 204 None
        else if nm = ''b'' then Response 403 None else ConnectionFailed)) example_manager ''c'' (typed []))
   \<and> requests (process_repos (example_server [] (\<lambda>nm. if nm = ''a'' then Response 204 None
        else if nm = ''b'' then Response 403 None else ConnectionFailed)) example_manager [''b'', ''a'', ''c''] (typed []))
       = [PATCH_repo ''u'' ''b'', PATCH_repo ''u'' ''a'', PATCH_repo ''u'' ''c'']
   \<and> last (trace (process_repos (example_server [] (\<lambda>nm. if nm = ''a'' then Response 204 None
        else if nm = ''b'' then Response 403 None else ConnectionFailed)) example_manager [''b'', ''a'', ''c''] (typed [])))
       = Print (Summary 1 3)"
proof -
  let ?srv = "example_server [] (\<lambda>nm. if nm = ''a'' then Response 204 None
        else if nm = ''b'' then Response 403 None else ConnectionFailed)"
  have ea: "patch_endpoint ?srv (token example_manager) (username example_manager) ''a'' = Response 204 None"
    and eb: "patch_endpoint ?srv (token example_manager) (username example_manager) ''b'' = Response 403 None"
    and ec: "patch_endpoint ?srv (token example_manager) (username example_manager) ''c'' = ConnectionFailed"
    by (simp_all add: example_server_def)
  have r0: "requests (typed []) = []"
    by (simp add: typed_def requests_def List.map_filter_def)
  have a: "fst (make_repo_private ?srv example_manager ''a'' (typed []))"
    using make_private_and_summary[of ?srv example_manager "''a''" "typed []" 204 None] ea by simp
  have b: "\<not> fst (make_repo_private ?srv example_manager ''b'' (typed []))"
    using make_private_and_summary[of ?srv example_manager "''b''" "typed []" 403 None] eb by simp
  have c: "\<not> fst (make_repo_private ?srv example_manager ''c'' (typed []))"
    using make_private_and_summary[of ?srv example_manager "''c''" "typed []"] ec by simp
  have d: "requests (process_repos ?srv example_manager [''b'', ''a'', ''c''] (typed []))
       = [PATCH_repo ''u'' ''b'', PATCH_repo ''u'' ''a'', PATCH_repo ''u'' ''c'']
     \<and> last (trace (process_repos ?srv example_manager [''b'', ''a'', ''c''] (typed [])))
       = Print (Summary 1 3)"
    using make_private_and_summary[of ?srv example_manager "''a''" "typed []" 204 None "[''b'', ''a'', ''c'']"]
      a b c r0
    by (simp add: example_manager_def)
  from ea eb ec a b c d show ?thesis by (simp add: example_manager_def)
qed

section \<open>Authentication\<close>


lemma test_authentication_raises_iff:
  "fst (test_authentication srv m s) = Inl e \<longleftrightarrow>
     e = KeyError \<and> (\<exists>body. user_endpoint srv (token m) = Response 200 (Some body) \<and> body ''login'' = None)"
  by (auto simp: test_authentication_def Let_def split: http.splits option.splits)






section \<open>Batch mode\<close>

lemma batch_selection_selected:
  "set (fst (batch_selection repos b)) = set (map strip (split CHR '','' b)) \<inter> set (map name repos)"
  by (auto simp: batch_selection_def Let_def)

lemma batch_selection_missing:
  "snd (batch_selection repos b) = set (map strip (split CHR '','' b)) - set (map name repos)"
  by (auto simp: batch_selection_def Let_def)

lemma select_repos_batch:
  "select_repos ord (batch_args (c # cs)) repos s =
     (Inr (fst (batch_selection repos (c # cs))),
      if snd (batch_selection repos (c # cs)) \<noteq> {}
      then emit (Print (NotFound (snd (batch_selection repos (c # cs))))) s else s)"
  by (simp add: select_repos_def batch_args_def truthy_def split: prod.splits)

text \<open>
  Claim C3. In batch mode the set of selected names is the set of input names (the
  comma-separated parts, trimmed) intersected with the fetched names, the missing names
  are the input names minus the fetched ones, and they are what the warning reports.
  But the selection is the list of input names filtered, not a set: a name given twice
  is selected twice. With \<open>--batch a,a\<close> and a fetched repository \<open>a\<close> the selection is
  \<open>[a, a]\<close>, the confirmation lists \<open>a\<close> twice, two PATCH calls go to the same repository
  and the summary counts 2 of 2, where the interactive path removes duplicates.
\<close>

theorem batch_selection_keeps_duplicates:
  "set (fst (batch_selection repos b)) = set (map strip (split CHR '','' b)) \<inter> set (map name repos)
   \<and> snd (batch_selection repos b) = set (map strip (split CHR '','' b)) - set (map name repos)
   \<and> select_repos ord (batch_args (c # cs)) repos s =
       (Inr (fst (batch_selection repos (c # cs))),
        if snd (batch_selection repos (c # cs)) \<noteq> {}
        then emit (Print (NotFound (snd (batch_selection repos (c # cs))))) s else s)
   \<and> batch_selection example_repos ''a,a'' = ([''a'', ''a''], {})
   \<and> \<not> distinct (fst (batch_selection example_repos ''a,a''))
   \<and> main id (batch_args ''a,a'') example_env (example_server [example_repos] (\<lambda>nm. Response 200 None))
        (typed [''y'']) =
      Some \<lparr>exit_code = 0,
            final = \<lparr>stdin = [],
                     trace = [Request GET_user, Print (AuthOk ''u''), Request (GET_repos 1),
                              Request (GET_repos 2), Print (Found [''a'', ''c'']),
                              Print (AboutTo [''a'', ''a'']), Prompt ConfirmPrompt, Print (Making 2),
                              Print (Processing ''a''), Request (PATCH_repo ''u'' ''a''), Print Done,
                              Print (Processing ''a''), Request (PATCH_repo ''u'' ''a''), Print Done,
                              Print (Summary 2 2)]\<rparr>\<rparr>"
proof -
  have e: "batch_selection example_repos ''a,a'' = ([''a'', ''a''], {})"
    by code_simp
  have m: "main id (batch_args ''a,a'') example_env (example_server [example_repos] (\<lambda>nm. Response 200 None))
        (typed [''y'']) =
      Some \<lparr>exit_code = 0,
            final = \<lparr>stdin = [],
                     trace = [Request GET_user, Print (AuthOk ''u''), Request (GET_repos 1),
                              Request (GET_repos 2), Print (Found [''a'', ''c'']),
                              Print (AboutTo [''a'', ''a'']), Prompt ConfirmPrompt, Print (Making 2),
                              Print (Processing ''a''), Request (PATCH_repo ''u'' ''a''), Print Done,
                              Print (Processing ''a''), Request (PATCH_repo ''u'' ''a''), Print Done,
                              Print (Summary 2 2)]\<rparr>\<rparr>"
    by code_simp
  from e m show ?thesis
    by (simp add: batch_selection_selected batch_selection_missing select_repos_batch)
qed

section \<open>Listing the public repositories\<close>

lemma requested_same [simp]: "requested k k s = s"
  by (simp add: requested_def)

lemma requested_step: "requested (Suc k) l (emit (Request (GET_repos k)) s) = requested k l s" if "k < l"
  using that by (simp add: requested_def emit_def upt_conv_Cons)

lemma fetch_pages_serves:
  "serves srv m k pages \<Longrightarrow>
     fetch_pages srv m k repos s =
     fetch_pages srv m (k + length pages) (repos @ concat (map (filter (owned m)) pages))
       (requested k (k + length pages) s)"
proof (induction pages arbitrary: k repos s)
  case Nil
  then show ?case by simp
next
  case (Cons p ps)
  from Cons.prems obtain st where
    ep: "repos_endpoint srv (token m) k = Response st (Some p)" and st: "\<not> raise_for_status st"
    and p: "p \<noteq> []" and rest: "serves srv m (Suc k) ps"
    by (auto split: http.splits option.splits)
  have "fetch_pages srv m k repos s =
        fetch_pages srv m (Suc k) (repos @ filter (owned m) p) (emit (Request (GET_repos k)) s)"
    by (subst fetch_pages.simps) (simp add: ep st p)
  also have "\<dots> = fetch_pages srv m (Suc k + length ps)
       ((repos @ filter (owned m) p) @ concat (map (filter (owned m)) ps))
       (requested (Suc k) (Suc k + length ps) (emit (Request (GET_repos k)) s))"
    by (rule Cons.IH[OF rest])
  finally show ?case
    by (simp add: requested_step)
qed

lemma fetch_pages_empty_page:
  "repos_endpoint srv (token m) k = Response st (Some []) \<Longrightarrow> \<not> raise_for_status st \<Longrightarrow>
     fetch_pages srv m k repos s = Some (repos, emit (Request (GET_repos k)) s)"
  by (subst fetch_pages.simps) simp

lemma fetch_pages_request_error:
  "request_error (repos_endpoint srv (token m) k) \<Longrightarrow>
     fetch_pages srv m k repos s =
       Some (repos, emit (Print FetchError) (emit (Request (GET_repos k)) s))"
  by (subst fetch_pages.simps) (auto split: http.splits option.splits)

lemma requested_emit: "emit (Request (GET_repos l)) (requested k l s) = requested k (Suc l) s" if "k \<le> l"
  using that by (simp add: requested_def emit_def)

text \<open>
  The loop has no bound of its own: against an endpoint that answers every page from
  some number on with a non-empty list, it never returns.
\<close>

lemma fetch_pages_never_returns:
  assumes never_empty: "\<And>k. k0 \<le> k \<Longrightarrow>
      \<exists>st p. repos_endpoint srv (token m) k = Response st (Some p) \<and> \<not> raise_for_status st \<and> p \<noteq> []"
    and k: "k0 \<le> k"
  shows "fetch_pages srv m k repos s = None"
proof (rule ccontr)
  assume "fetch_pages srv m k repos s \<noteq> None"
  then obtain y where y: "fetch_pages srv m k repos s = Some y" by auto
  have "\<not> (srv = srv \<and> m = m \<and> k0 \<le> k)"
  proof (rule fetch_pages.raw_induct
      [where P = "\<lambda>srv' m' k repos s y. \<not> (srv' = srv \<and> m' = m \<and> k0 \<le> k)", OF _ y])
    fix f srv' m' k repos s y
    assume IH: "\<And>srv' m' k repos s y. f srv' m' k repos s = Some y \<Longrightarrow> \<not> (srv' = srv \<and> m' = m \<and> k0 \<le> k)"
      and eq: "(case repos_endpoint srv' (token m') k of
        ConnectionFailed \<Rightarrow> Some (repos, emit (Print FetchError) (emit (Request (GET_repos k)) s))
      | Response status_code body \<Rightarrow>
          if raise_for_status status_code
          then Some (repos, emit (Print FetchError) (emit (Request (GET_repos k)) s))
          else
            (case body of
               None \<Rightarrow> Some (repos, emit (Print FetchError) (emit (Request (GET_repos k)) s))
             | Some page_repos \<Rightarrow>
                 if page_repos = [] then Some (repos, emit (Request (GET_repos k)) s)
                 else f srv' m' (k + 1) (repos @ filter (owned m') page_repos)
                        (emit (Request (GET_repos k)) s))) = Some y"
    show "\<not> (srv' = srv \<and> m' = m \<and> k0 \<le> k)"
    proof
      assume a: "srv' = srv \<and> m' = m \<and> k0 \<le> k"
      with never_empty[of k] obtain st p where
        "repos_endpoint srv' (token m') k = Response st (Some p)" "\<not> raise_for_status st" "p \<noteq> []"
        by auto
      with eq have "f srv' m' (k + 1) (repos @ filter (owned m') p) (emit (Request (GET_repos k)) s) = Some y"
        by simp
      from IH[OF this] a show False by simp
    qed
  qed
  with k show False by simp
qed

text \<open>
  Claim C2. When the endpoint answers the pages 1 to \<open>n\<close> with non-empty lists and page
  \<open>n + 1\<close> with the empty list, \<open>get_public_repos\<close> returns: it has requested the pages 1
  to \<open>n + 1\<close>, each once and in order, and nothing after the empty page. The list it
  returns is the concatenation, in page order, of each page's items whose owner login
  is the configured username; no item with another owner login (or none) is in it.
\<close>

theorem listing_until_empty_page:
  assumes "serves srv m 1 pages"
    and "repos_endpoint srv (token m) (length pages + 1) = Response st (Some [])"
    and "\<not> raise_for_status st"
  shows "get_public_repos srv m s =
           Some (concat (map (filter (owned m)) pages), requested 1 (length pages + 2) s)
         \<and> (\<forall>r \<in> set (concat (map (filter (owned m)) pages)). owner_login r = Some (username m))"
proof -
  have "get_public_repos srv m s =
        fetch_pages srv m (1 + length pages) ([] @ concat (map (filter (owned m)) pages))
          (requested 1 (1 + length pages) s)"
    unfolding get_public_repos_def by (rule fetch_pages_serves[OF assms(1)])
  also have "\<dots> = Some (concat (map (filter (owned m)) pages),
                         emit (Request (GET_repos (1 + length pages))) (requested 1 (1 + length pages) s))"
    using fetch_pages_empty_page[of srv m "1 + length pages" st] assms(2,3) by simp
  finally show ?thesis
    by (auto simp: requested_emit owned_def)
qed

theorem listing_until_empty_page_witness:
  "serves (example_server [example_repos, [\<lparr>name = ''d'', owner_login = None\<rparr>]] (\<lambda>nm. ConnectionFailed))
      example_manager 1 [example_repos, [\<lparr>name = ''d'', owner_login = None\<rparr>]]
   \<and> repos_endpoint (example_server [example_repos, [\<lparr>name = ''d'', owner_login = None\<rparr>]] (\<lambda>nm. ConnectionFailed))
        ''t0'' 3 = Response 200 (Some [])
   \<and> \<not> raise_for_status 200
   \<and> get_public_repos (example_server [example_repos, [\<lparr>name = ''d'', owner_login = None\<rparr>]] (\<lambda>nm. ConnectionFailed))
        example_manager (typed []) =
      Some ([\<lparr>name = ''a'', owner_login = Some ''u''\<rparr>, \<lparr>name = ''c'', owner_login = Some ''u''\<rparr>],
            \<lparr>stdin = [], trace = [Request (GET_repos 1), Request (GET_repos 2), Request (GET_repos 3)]\<rparr>)"
proof -
  let ?pages = "[example_repos, [\<lparr>name = ''d'', owner_login = None\<rparr>]]"
  let ?srv = "example_server ?pages (\<lambda>nm. ConnectionFailed)"
  have h1: "serves ?srv example_manager 1 ?pages"
    by code_simp
  have w2: "repos_endpoint ?srv ''t0'' 3 = Response 200 (Some [])"
    by (simp add: example_server_def)
  have h2: "repos_endpoint ?srv (token example_manager) (length ?pages + 1) = Response 200 (Some [])"
    by (simp add: example_server_def)
  have h3: "\<not> raise_for_status 200"
    by (simp add: raise_for_status_def)
  have c: "concat (map (filter (owned example_manager)) ?pages) =
             [\<lparr>name = ''a'', owner_login = Some ''u''\<rparr>, \<lparr>name = ''c'', owner_login = Some ''u''\<rparr>]"
    by (simp add: owned_def example_manager_def example_repos_def)
  have r: "requested 1 (length ?pages + 2) (typed []) =
             \<lparr>stdin = [], trace = [Request (GET_repos 1), Request (GET_repos 2), Request (GET_repos 3)]\<rparr>"
    by (simp add: requested_def typed_def upt_conv_Cons)
  have w4: "get_public_repos ?srv example_manager (typed []) =
      Some ([\<lparr>name = ''a'', owner_login = Some ''u''\<rparr>, \<lparr>name = ''c'', owner_login = Some ''u''\<rparr>],
            \<lparr>stdin = [], trace = [Request (GET_repos 1), Request (GET_repos 2), Request (GET_repos 3)]\<rparr>)"
    using conjunct1[OF listing_until_empty_page[OF h1 h2 h3, of "typed []"]] unfolding c r .
  from h1 w2 h3 w4 show ?thesis by blast
qed

text \<open>
  Claim C7. When the endpoint answers the pages 1 to \<open>n\<close> with non-empty lists and the
  request of page \<open>n + 1\<close> fails with a request error, \<open>get_public_repos\<close> returns (it
  does not raise): page \<open>n + 1\<close> is the last it requests, it reports the error, and the
  list it returns is what the pages 1 to \<open>n\<close> contributed.
\<close>

theorem listing_stops_at_failing_page:
  assumes "serves srv m 1 pages"
    and "request_error (repos_endpoint srv (token m) (length pages + 1))"
  shows "get_public_repos srv m s =
           Some (concat (map (filter (owned m)) pages),
                 emit (Print FetchError) (requested 1 (length pages + 2) s))"
proof -
  have "get_public_repos srv m s =
        fetch_pages srv m (1 + length pages) ([] @ concat (map (filter (owned m)) pages))
          (requested 1 (1 + length pages) s)"
    unfolding get_public_repos_def by (rule fetch_pages_serves[OF assms(1)])
  also have "\<dots> = Some (concat (map (filter (owned m)) pages),
                         emit (Print FetchError)
                           (emit (Request (GET_repos (1 + length pages))) (requested 1 (1 + length pages) s)))"
    using fetch_pages_request_error[of srv m "1 + length pages"] assms(2) by simp
  finally show ?thesis
    by (simp add: requested_emit)
qed

theorem listing_stops_at_failing_page_witness:
  "serves ((example_server [] (\<lambda>nm. ConnectionFailed))
             \<lparr>repos_endpoint := (\<lambda>t page. if page = 1 then Response 200 (Some example_repos) else Response 502 None)\<rparr>)
      example_manager 1 [example_repos]
   \<and> request_error (repos_endpoint ((example_server [] (\<lambda>nm. ConnectionFailed))
             \<lparr>repos_endpoint := (\<lambda>t page. if page = 1 then Response 200 (Some example_repos) else Response 502 None)\<rparr>)
        ''t0'' 2)
   \<and> get_public_repos ((example_server [] (\<lambda>nm. ConnectionFailed))
             \<lparr>repos_endpoint := (\<lambda>t page. if page = 1 then Response 200 (Some example_repos) else Response 502 None)\<rparr>)
        example_manager (typed []) =
      Some ([\<lparr>name = ''a'', owner_login = Some ''u''\<rparr>, \<lparr>name = ''c'', owner_login = Some ''u''\<rparr>],
            \<lparr>stdin = [], trace = [Request (GET_repos 1), Request (GET_repos 2), Print FetchError]\<rparr>)"
proof -
  let ?srv = "(example_server [] (\<lambda>nm. ConnectionFailed))
             \<lparr>repos_endpoint := (\<lambda>t page. if page = 1 then Response 200 (Some example_repos) else Response 502 None)\<rparr>"
  have h1: "serves ?srv example_manager 1 [example_repos]"
    by (simp add: example_repos_def raise_for_status_def)
  have w2: "request_error (repos_endpoint ?srv ''t0'' 2)"
    by (simp add: raise_for_status_def)
  have h2: "request_error (repos_endpoint ?srv (token example_manager) (length [example_repos] + 1))"
    by (simp add: raise_for_status_def)
  have c: "concat (map (filter (owned example_manager)) [example_repos]) =
             [\<lparr>name = ''a'', owner_login = Some ''u''\<rparr>, \<lparr>name = ''c'', owner_login = Some ''u''\<rparr>]"
    by (simp add: owned_def example_manager_def example_repos_def)
  have r: "emit (Print FetchError) (requested 1 (length [example_repos] + 2) (typed [])) =
             \<lparr>stdin = [], trace = [Request (GET_repos 1), Request (GET_repos 2), Print FetchError]\<rparr>"
    by (simp add: requested_def typed_def upt_conv_Cons emit_def)
  have w3: "get_public_repos ?srv example_manager (typed []) =
      Some ([\<lparr>name = ''a'', owner_login = Some ''u''\<rparr>, \<lparr>name = ''c'', owner_login = Some ''u''\<rparr>],
            \<lparr>stdin = [], trace = [Request (GET_repos 1), Request (GET_repos 2), Print FetchError]\<rparr>)"
    using listing_stops_at_failing_page[OF h1 h2, of "typed []"] unfolding c r .
  from h1 w2 w3 show ?thesis by blast
qed

section \<open>Exit status\<close>

text \<open>
  Apart from \<open>KeyError\<close> in \<open>test_authentication\<close>, the only exceptions of the operations
  are those of reading the terminal; a malformed selection is caught and asked again.
\<close>

lemma input_error: "input p s = (Inl e, s') \<Longrightarrow> e = EOFError \<or> e = KeyboardInterrupt"
  by (auto simp: input_def split: list.splits key.splits)

lemma get_credentials_error:
  "get_credentials env s = (Inl e, s') \<Longrightarrow> e = EOFError \<or> e = KeyboardInterrupt"
  unfolding get_credentials_def
  by (auto split: option.splits if_splits prod.splits sum.splits dest!: input_error simp: Let_def)

lemma select_part_error: "select_part repos part = Inl e \<Longrightarrow> e = ValueError"
  by (auto simp: select_part_def Let_def split: if_splits list.splits option.splits)

lemma select_parts_error: "select_parts repos parts acc = Inl e \<Longrightarrow> e = ValueError"
  by (induction parts arbitrary: acc) (auto split: sum.splits dest: select_part_error)

lemma parse_selection_error: "parse_selection repos sel = Inl e \<Longrightarrow> e = ValueError"
  by (simp add: parse_selection_def select_parts_error)

lemma selection_loop_error:
  "fst (selection_loop ord repos tr ks) = Inl e \<Longrightarrow> e = EOFError \<or> e = KeyboardInterrupt"
proof (induction ord repos tr ks rule: selection_loop.induct)
  case (3 ord repos tr l ks)
  then show ?case
    by (auto simp: Let_def split: if_splits sum.splits dest: parse_selection_error)
qed simp_all

lemma select_repos_error:
  "select_repos ord a repos s = (Inl e, s') \<Longrightarrow> e = EOFError \<or> e = KeyboardInterrupt"
  using selection_loop_error[of ord repos "trace s @ [Print SelectionOptions]" "stdin s" e]
  by (auto simp: select_repos_def interactive_selection_def split: if_splits option.splits prod.splits)

lemma confirm_action_error:
  "confirm_action nms s = (Inl e, s') \<Longrightarrow> e = EOFError \<or> e = KeyboardInterrupt"
  by (auto simp: confirm_action_def Let_def split: if_splits prod.splits sum.splits dest: input_error)

lemma update_step_error:
  "update_step srv m sel s = (Inl e, s') \<Longrightarrow> e = EOFError \<or> e = KeyboardInterrupt"
  by (auto simp: update_step_def split: if_splits prod.splits sum.splits dest: confirm_action_error)

lemma select_phase_SystemExit:
  assumes "select_phase ord a env srv s = Some (Inl (Inl (SystemExit n)), s')"
  shows "n = 1 \<and> (credentials_missing env s \<or> authentication_fails env srv s)"
proof (cases "get_credentials env s")
  case (Pair r s1)
  show ?thesis
  proof (cases r)
    case (Inl e)
    with assms Pair get_credentials_error[of env s e s1] show ?thesis
      by (auto simp: select_phase_def)
  next
    case (Inr cred)
    obtain tok usr where cred: "cred = (tok, usr)" by (cases cred)
    let ?m = "\<lparr>token = tok, username = usr\<rparr>"
    show ?thesis
    proof (cases "tok = [] \<or> usr = []")
      case True
      with assms Pair Inr cred show ?thesis
        by (auto simp: select_phase_def credentials_missing_def)
    next
      case False
      obtain r2 s2 where ta: "test_authentication srv ?m s1 = (r2, s2)"
        by (cases "test_authentication srv ?m s1")
      show ?thesis
      proof (cases r2)
        case (Inl e)
        with ta test_authentication_raises_iff[of srv ?m s1 e] have "e = KeyError" by simp
        with assms Pair Inr cred False ta Inl show ?thesis
          by (auto simp: select_phase_def)
      next
        case ok: (Inr ok)
        show ?thesis
        proof (cases ok)
          case notok: False
          with assms Pair Inr cred False ta ok show ?thesis
            by (auto simp: select_phase_def authentication_fails_def)
        next
          case True
          from assms Pair Inr cred False ta ok True
          obtain repos s3 where gp: "get_public_repos srv ?m s2 = Some (repos, s3)"
            by (cases "get_public_repos srv ?m s2") (auto simp: select_phase_def Let_def)
          obtain r5 s5 where sr: "select_repos ord a repos (display_repos repos s3) = (r5, s5)"
            by (cases "select_repos ord a repos (display_repos repos s3)")
          from assms Pair Inr cred False ta ok True gp sr select_repos_error[of ord a repos "display_repos repos s3" _ s5]
          show ?thesis
            by (cases r5) (auto simp: select_phase_def Let_def split: if_splits)
        qed
      qed
    qed
  qed
qed

lemma select_phase_exits:
  assumes "credentials_missing env s \<or> authentication_fails env srv s"
  shows "\<exists>s'. select_phase ord a env srv s = Some (Inl (Inl (SystemExit 1)), s')"
  using assms
  by (cases "get_credentials env s")
     (auto simp: select_phase_def credentials_missing_def authentication_fails_def Let_def
        split: sum.splits prod.splits)

lemma main_body_SystemExit:
  "main_body ord a env srv s = Some (Inl (SystemExit n), s') \<longleftrightarrow>
     select_phase ord a env srv s = Some (Inl (Inl (SystemExit n)), s')"
  by (auto simp: main_body_def split: option.splits sum.splits prod.splits dest: update_step_error)

lemma select_phase_error:
  assumes "select_phase ord a env srv s = Some (Inl (Inl e), s')"
  shows "e = EOFError \<or> e = KeyboardInterrupt \<or> e = KeyError \<or> e = SystemExit 1"
proof (cases "get_credentials env s")
  case (Pair r s1)
  show ?thesis
  proof (cases r)
    case (Inl e1)
    with assms Pair get_credentials_error[of env s e1 s1] show ?thesis
      by (auto simp: select_phase_def)
  next
    case (Inr cred)
    obtain tok usr where cred: "cred = (tok, usr)" by (cases cred)
    let ?m = "\<lparr>token = tok, username = usr\<rparr>"
    show ?thesis
    proof (cases "tok = [] \<or> usr = []")
      case True
      with assms Pair Inr cred show ?thesis
        by (auto simp: select_phase_def)
    next
      case False
      obtain r2 s2 where ta: "test_authentication srv ?m s1 = (r2, s2)"
        by (cases "test_authentication srv ?m s1")
      show ?thesis
      proof (cases r2)
        case (Inl e2)
        with ta test_authentication_raises_iff[of srv ?m s1 e2] have "e2 = KeyError" by simp
        with assms Pair Inr cred False ta Inl show ?thesis
          by (auto simp: select_phase_def)
      next
        case ok: (Inr ok)
        show ?thesis
        proof (cases ok)
          case notok: False
          with assms Pair Inr cred False ta ok show ?thesis
            by (auto simp: select_phase_def)
        next
          case True
          from assms Pair Inr cred False ta ok True
          obtain repos s3 where gp: "get_public_repos srv ?m s2 = Some (repos, s3)"
            by (cases "get_public_repos srv ?m s2") (auto simp: select_phase_def Let_def)
          obtain r5 s5 where sr: "select_repos ord a repos (display_repos repos s3) = (r5, s5)"
            by (cases "select_repos ord a repos (display_repos repos s3)")
          from assms Pair Inr cred False ta ok True gp sr select_repos_error[of ord a repos "display_repos repos s3" _ s5]
          show ?thesis
            by (cases r5) (auto simp: select_phase_def Let_def split: if_splits)
        qed
      qed
    qed
  qed
qed

lemma main_body_error:
  assumes "main_body ord a env srv s = Some (Inl e, s')"
  shows "e = EOFError \<or> e = KeyboardInterrupt \<or> e = KeyError \<or> e = SystemExit 1"
proof (cases "select_phase ord a env srv s")
  case None
  with assms show ?thesis by (simp add: main_body_def)
next
  case (Some x)
  obtain y s5 where x: "x = (y, s5)" by (cases x)
  show ?thesis
  proof (cases y)
    case (Inl ended)
    with assms Some x select_phase_error[of ord a env srv s e s'] show ?thesis
      by (auto simp: main_body_def)
  next
    case (Inr msel)
    obtain m sel where "msel = (m, sel)" by (cases msel)
    with assms Some x Inr update_step_error[of srv m sel s5 e s'] show ?thesis
      by (auto simp: main_body_def)
  qed
qed

text \<open>
  Claim C8. A run of \<open>main\<close> that ends, ends with status 1 when the credentials are
  missing, when authentication fails, or when an exception of class \<open>Exception\<close> leaves
  the body of the \<open>try\<close>, and with status 0 in every other case. In particular a run
  that reaches the update step and is confirmed ends with status 0 after
  \<open>process_repos\<close>, whatever the update calls answer. The exceptions of class
  \<open>Exception\<close> that can leave the body are \<open>EOFError\<close> (the terminal's input ends at a
  prompt) and the \<open>KeyError\<close> of \<open>test_authentication\<close>. (The command line is taken as
  parsed: the exit of the argument parser on a usage error precedes the \<open>try\<close>.)
\<close>

theorem exit_status:
  "(main ord a env srv s = Some r \<longrightarrow>
      exit_code r =
        (if credentials_missing env s \<or> authentication_fails env srv s \<or> unexpected_error ord a env srv s
         then 1 else 0))
   \<and> (select_phase ord a env srv s = Some (Inr (m, sel), s5) \<and> fst (confirm_action sel s5) = Inr True \<longrightarrow>
        main ord a env srv s =
          Some \<lparr>exit_code = 0, final = process_repos srv m sel (snd (confirm_action sel s5))\<rparr>)
   \<and> (unexpected_error ord a env srv s \<longrightarrow>
        (\<exists>e s'. main_body ord a env srv s = Some (Inl e, s') \<and> (e = EOFError \<or> e = KeyError)))"
proof -
  have A: "exit_code r =
        (if credentials_missing env s \<or> authentication_fails env srv s \<or> unexpected_error ord a env srv s
         then 1 else 0)" if "main ord a env srv s = Some r"
  proof -
    from that obtain res s' where mb: "main_body ord a env srv s = Some (res, s')"
      and r: "r = handlers (res, s')"
      by (auto simp: main_def)
    have exits: "res = Inl (SystemExit 1)"
      if "credentials_missing env s \<or> authentication_fails env srv s"
      using select_phase_exits[OF that, of ord a] mb by (auto simp: main_body_def)
    show ?thesis
    proof (cases res)
      case (Inr u)
      with exits have "\<not> (credentials_missing env s \<or> authentication_fails env srv s)" by auto
      with Inr r mb show ?thesis by (simp add: handlers_def unexpected_error_def)
    next
      case (Inl e)
      show ?thesis
      proof (cases e)
        case KeyboardInterrupt
        with Inl exits have "\<not> (credentials_missing env s \<or> authentication_fails env srv s)" by auto
        with KeyboardInterrupt Inl r mb show ?thesis by (simp add: handlers_def unexpected_error_def)
      next
        case (SystemExit n)
        with Inl mb have "select_phase ord a env srv s = Some (Inl (Inl (SystemExit n)), s')"
          by (simp add: main_body_SystemExit)
        from select_phase_SystemExit[OF this] SystemExit Inl r show ?thesis
          by (auto simp: handlers_def)
      qed (use Inl r mb in \<open>simp_all add: handlers_def unexpected_error_def\<close>)
    qed
  qed
  have B: "main ord a env srv s =
          Some \<lparr>exit_code = 0, final = process_repos srv m sel (snd (confirm_action sel s5))\<rparr>"
    if sp: "select_phase ord a env srv s = Some (Inr (m, sel), s5)" and c: "fst (confirm_action sel s5) = Inr True"
  proof -
    from c have "sel \<noteq> []" by (auto simp: confirm_action_def)
    with c show ?thesis
      by (cases "confirm_action sel s5") (simp add: main_of_select_phase[OF sp] update_step_def handlers_def)
  qed
  have C: "\<exists>e s'. main_body ord a env srv s = Some (Inl e, s') \<and> (e = EOFError \<or> e = KeyError)"
    if "unexpected_error ord a env srv s"
  proof -
    from that obtain e s' where mb: "main_body ord a env srv s = Some (Inl e, s')" and ex: "is_Exception e"
      by (auto simp: unexpected_error_def split: option.splits sum.splits prod.splits)
    from main_body_error[OF mb] ex have "e = EOFError \<or> e = KeyError" by auto
    with mb show ?thesis by blast
  qed
  from A B C show ?thesis by blast
qed

theorem exit_status_witness:
  "select_phase id all_args example_env (example_server [example_repos] (\<lambda>nm. Response 500 None)) (typed [''yes'']) =
     Some (Inr (example_manager, [''a'', ''c'']),
           \<lparr>stdin = [Line ''yes''],
            trace = [Request GET_user, Print (AuthOk ''u''), Request (GET_repos 1), Request (GET_repos 2),
                     Print (Found [''a'', ''c''])]\<rparr>)
   \<and> fst (confirm_action [''a'', ''c'']
           \<lparr>stdin = [Line ''yes''],
            trace = [Request GET_user, Print (AuthOk ''u''), Request (GET_repos 1), Request (GET_repos 2),
                     Print (Found [''a'', ''c''])]\<rparr>) = Inr True
   \<and> (\<exists>r. main id all_args example_env (example_server [example_repos] (\<lambda>nm. Response 500 None)) (typed [''yes'']) = Some r
          \<and> exit_code r = 0 \<and> last (trace (final r)) = Print (Summary 0 2))
   \<and> credentials_missing (example_env\<lparr>GITHUB_USERNAME := None, config := Map.empty\<rparr>) (typed ['' '', ''n''])
   \<and> (\<exists>r. main id no_args (example_env\<lparr>GITHUB_USERNAME := None, config := Map.empty\<rparr>)
              (example_server [example_repos] (\<lambda>nm. Response 500 None)) (typed ['' '', ''n'']) = Some r
          \<and> exit_code r = 1)
   \<and> unexpected_error id no_args example_env (example_server [example_repos] (\<lambda>nm. Response 500 None)) (typed [])
   \<and> (\<exists>r. main id no_args example_env (example_server [example_repos] (\<lambda>nm. Response 500 None)) (typed []) = Some r
          \<and> exit_code r = 1)"
proof -
  let ?srv = "example_server [example_repos] (\<lambda>nm. Response 500 None)"
  let ?s5 = "\<lparr>stdin = [Line ''yes''],
            trace = [Request GET_user, Print (AuthOk ''u''), Request (GET_repos 1), Request (GET_repos 2),
                     Print (Found [''a'', ''c''])]\<rparr>"
  let ?env = "example_env\<lparr>GITHUB_USERNAME := None, config := Map.empty\<rparr>"
  have sp: "select_phase id all_args example_env ?srv (typed [''yes'']) =
              Some (Inr (example_manager, [''a'', ''c'']), ?s5)"
    by code_simp
  have ca: "fst (confirm_action [''a'', ''c''] ?s5) = Inr True"
    by code_simp
  have pr: "last (trace (process_repos ?srv example_manager [''a'', ''c''] (snd (confirm_action [''a'', ''c''] ?s5))))
              = Print (Summary 0 2)"
    by code_simp
  have w1: "\<exists>r. main id all_args example_env ?srv (typed [''yes'']) = Some r
          \<and> exit_code r = 0 \<and> last (trace (final r)) = Print (Summary 0 2)"
    using exit_status[of id all_args example_env ?srv "typed [''yes'']" _ example_manager "[''a'', ''c'']" ?s5]
      sp ca pr
    by simp
  have cm: "credentials_missing ?env (typed ['' '', ''n''])"
    by code_simp
  obtain r2 where m2: "main id no_args ?env ?srv (typed ['' '', ''n'']) = Some r2"
  proof
    show "main id no_args ?env ?srv (typed ['' '', ''n'']) =
            Some \<lparr>exit_code = 1,
                  final = \<lparr>stdin = [], trace = [Prompt UsernamePrompt, Prompt SavePrompt,
                                                Print CredentialsRequired]\<rparr>\<rparr>"
      by code_simp
  qed
  have w2: "\<exists>r. main id no_args ?env ?srv (typed ['' '', ''n'']) = Some r \<and> exit_code r = 1"
    using exit_status[of id no_args ?env ?srv "typed ['' '', ''n'']" r2] m2 cm by simp
  have ue: "unexpected_error id no_args example_env ?srv (typed [])"
    by code_simp
  obtain r3 where m3: "main id no_args example_env ?srv (typed []) = Some r3"
  proof
    show "main id no_args example_env ?srv (typed []) =
            Some \<lparr>exit_code = 1,
                  final = \<lparr>stdin = [],
                           trace = [Request GET_user, Print (AuthOk ''u''), Request (GET_repos 1),
                                    Request (GET_repos 2), Print (Found [''a'', ''c'']),
                                    Print SelectionOptions, Prompt SelectionPrompt,
                                    Print UnexpectedError]\<rparr>\<rparr>"
      by code_simp
  qed
  have w3: "\<exists>r. main id no_args example_env ?srv (typed []) = Some r \<and> exit_code r = 1"
    using exit_status[of id no_args example_env ?srv "typed []" r3] m3 ue by simp
  from sp ca w1 cm w2 ue w3 show ?thesis by blast
qed

section \<open>Reading selection strings\<close>

subsection \<open>Characters\<close>

lemma of_char_digit: "k < 10 \<Longrightarrow> (of_char (char_of (48 + k :: nat)) :: nat) = 48 + k"
  by (simp add: of_char_of)

lemma is_digit_char_of: "k < 10 \<Longrightarrow> is_digit (char_of (48 + k :: nat))"
  by (simp add: is_digit_def of_char_digit)

lemma digit_val_char_of: "k < 10 \<Longrightarrow> digit_val (char_of (48 + k :: nat)) = k"
  by (simp add: digit_val_def of_char_digit)

lemma is_digit_not_space: "is_digit c \<Longrightarrow> \<not> is_space c"
  by (auto simp: is_digit_def is_space_def Let_def)

lemma is_digit_lower: "is_digit c \<Longrightarrow> lower_char c = c"
  by (auto simp: is_digit_def lower_char_def Let_def)

lemma is_digit_not_special:
  "is_digit c \<Longrightarrow> c \<noteq> CHR '','' \<and> c \<noteq> CHR ''-'' \<and> c \<noteq> CHR ''+'' \<and> c \<noteq> CHR ''_''
      \<and> c \<noteq> CHR ''q'' \<and> c \<noteq> CHR ''a''"
  by (auto simp: is_digit_def Let_def)

lemma decimal_digits: "c \<in> set (decimal n) \<Longrightarrow> is_digit c"
proof (induction n arbitrary: c rule: decimal.induct)
  case (1 n)
  show ?case
  proof (cases "n < 10")
    case True
    with "1.prems" show ?thesis
      by (subst (asm) decimal.simps) (simp add: is_digit_char_of)
  next
    case False
    with "1.prems" have "c \<in> set (decimal (n div 10)) \<or> c = char_of (48 + n mod 10)"
      by (subst (asm) decimal.simps) auto
    with False "1.IH" show ?thesis
      by (auto simp: is_digit_char_of)
  qed
qed

lemma decimal_nonempty: "decimal n \<noteq> []"
  by (subst decimal.simps) simp

lemma decimal_value: "foldl (\<lambda>a c. 10 * a + digit_val c) 0 (decimal n) = n"
proof (induction n rule: decimal.induct)
  case (1 n)
  show ?case
  proof (cases "n < 10")
    case True
    then show ?thesis
      by (subst decimal.simps) (simp add: digit_val_char_of)
  next
    case False
    with "1.IH" show ?thesis
      by (subst decimal.simps) (simp add: digit_val_char_of)
  qed
qed

subsection \<open>Strings of digits\<close>

lemma underscores_ok_digits: "\<forall>c \<in> set s. is_digit c \<Longrightarrow> underscores_ok s"
  by (induction s rule: underscores_ok.induct) (auto dest: is_digit_not_special)

lemma filter_underscore_digits: "\<forall>c \<in> set s. is_digit c \<Longrightarrow> filter (\<lambda>c. c \<noteq> CHR ''_'') s = s"
  by (induction s) (auto dest: is_digit_not_special)

lemma digits_value_decimal: "digits_value (decimal n) = Some n"
  using decimal_digits[of _ n]
  by (simp add: digits_value_def decimal_nonempty underscores_ok_digits filter_underscore_digits
      decimal_value)

lemma dropWhile_none: "\<forall>c \<in> set s. \<not> P c \<Longrightarrow> dropWhile P s = s"
  by (cases s) auto

lemma strip_no_space: "\<forall>c \<in> set s. \<not> is_space c \<Longrightarrow> strip s = s"
  by (simp add: strip_def dropWhile_none)


lemma py_int_decimal: "py_int (decimal n) = Some (int n)"
proof -
  have sp: "strip (decimal n) = decimal n"
    using decimal_digits[of _ n] by (intro strip_no_space) (auto dest: is_digit_not_space)
  obtain c cs where d: "decimal n = c # cs"
    using decimal_nonempty[of n] by (cases "decimal n") auto
  then have "is_digit c" using decimal_digits[of c n] by simp
  then have "c \<noteq> CHR ''+''" "c \<noteq> CHR ''-''" by (auto dest: is_digit_not_special)
  moreover have "strip (c # cs) = c # cs" using sp d by simp
  ultimately show ?thesis
    using digits_value_decimal[of n] by (simp add: py_int_def d)
qed

subsection \<open>Splitting\<close>

lemma split_none: "sep \<notin> set s \<Longrightarrow> split sep s = [s]"
  by (induction s) auto

lemma split_nonempty: "split sep s \<noteq> []"
  by (induction s) (auto split: list.splits)

lemma split_append: "sep \<notin> set x \<Longrightarrow> split sep (x @ sep # y) = x # split sep y"
  by (induction x) (auto split: list.splits)

subsection \<open>Parts of a line\<close>








subsection \<open>Selection strings in decimal notation\<close>

lemma render_token_chars: "c \<in> set (render_token t) \<Longrightarrow> is_digit c \<or> c = CHR ''-''"
  by (cases t) (auto dest: decimal_digits)


lemma render_token_no_space: "c \<in> set (render_token t) \<Longrightarrow> \<not> is_space c \<and> lower_char c = c"
  using render_token_chars[of c t]
  by (auto dest: is_digit_not_space is_digit_lower simp: is_space_def lower_char_def Let_def)












lemma strip_render_token: "strip (render_token t) = render_token t"
  using render_token_no_space[of _ t] by (simp add: strip_no_space)

lemma decimal_no_minus: "CHR ''-'' \<notin> set (decimal n)"
  using decimal_digits[of "CHR ''-''" n] by (auto dest: is_digit_not_special)

lemma token_range_Single: "token_range (render_token (Single n)) = Some (int n, int n)"
  using strip_render_token[of "Single n"]
  by (simp add: token_range_def decimal_no_minus py_int_decimal)

lemma token_range_Range: "token_range (render_token (Range n m)) = Some (int n, int m)"
proof -
  have "split CHR ''-'' (decimal n @ CHR ''-'' # decimal m) = [decimal n, decimal m]"
    by (simp add: split_append split_none decimal_no_minus)
  then show ?thesis
    using strip_render_token[of "Range n m"]
    by (simp add: token_range_def py_int_decimal)
qed

lemma token_range_render_token:
  "token_range (render_token t) = Some (n, m) \<longleftrightarrow>
     (case t of Single k \<Rightarrow> n = int k \<and> m = int k | Range k l \<Rightarrow> n = int k \<and> m = int l)"
  by (cases t) (auto simp: token_range_Single token_range_Range simp del: render_token.simps)



subsection \<open>One line of input\<close>







lemma trace_typed: "trace (typed ls) = []"
  by (simp add: typed_def)

lemma token_examples:
  "malformed ''abc'' \<and> malformed [] \<and> malformed ''1-'' \<and> malformed ''-1'' \<and> malformed ''1-2-3''
   \<and> malformed ''1 2'' \<and> token_range '' 7 '' = Some (7, 7) \<and> token_range ''+2'' = Some (2, 2)
   \<and> token_range ''1_0'' = Some (10, 10) \<and> token_range ''0-2'' = Some (0, 2)"
  by code_simp

section \<open>The result of the interactive selection\<close>



section \<open>Descending ranges\<close>



end
